theory Spec2Isabelle
  imports Main
begin

section \<open>Strings\<close>

text \<open>
  Two kinds of Python \<open>str\<close> occur in \<open>main.py\<close>. Paths, command-line words and
  messages are modelled as \<open>string\<close>; the only characters the program looks at in them
  are \<open>/\<close>, \<open>.\<close> and \<open>~\<close>. The transcript text, on which \<open>str.strip\<close> is
  called, is modelled as the list of its Unicode code points (\<open>ustr\<close>), because
  \<open>strip\<close> removes code points far beyond one byte (for instance U+3000). The content
  of a text file is the \<open>ustr\<close> that was written to it.
\<close>

type_synonym ustr = "nat list"

definition u :: "string \<Rightarrow> ustr" where
  "u s = map of_char s"

text \<open>
  The code points for which CPython's \<open>str.isspace\<close> holds; \<open>str.strip()\<close> without
  argument removes exactly these from both ends.
\<close>

definition py_isspace :: "nat \<Rightarrow> bool" where
  "py_isspace c =
     ((9 \<le> c \<and> c \<le> 13) \<or> (28 \<le> c \<and> c \<le> 32) \<or> c = 133 \<or> c = 160 \<or> c = 5760 \<or>
      (8192 \<le> c \<and> c \<le> 8202) \<or> c = 8232 \<or> c = 8233 \<or> c = 8239 \<or> c = 8287 \<or> c = 12288)"

definition lstrip :: "ustr \<Rightarrow> ustr" where
  "lstrip s = dropWhile py_isspace s"

definition rstrip :: "ustr \<Rightarrow> ustr" where
  "rstrip s = rev (dropWhile py_isspace (rev s))"

definition strip :: "ustr \<Rightarrow> ustr" where
  "strip s = rstrip (lstrip s)"

definition endswith :: "'a list \<Rightarrow> 'a list \<Rightarrow> bool" where
  "endswith s suffix =
     (length suffix \<le> length s \<and> drop (length s - length suffix) s = suffix)"

text \<open>\<open>str(n)\<close> for a Python \<open>int\<close>, as the f-strings of the program format it.\<close>

definition digit_char :: "nat \<Rightarrow> char" where
  "digit_char d = ''0123456789'' ! d"

fun str_nat :: "nat \<Rightarrow> string" where
  "str_nat n = (if n < 10 then [digit_char n] else str_nat (n div 10) @ [digit_char (n mod 10)])"

declare str_nat.simps [simp del]

definition str_int :: "int \<Rightarrow> string" where
  "str_int i = (if i < 0 then CHR ''-'' # str_nat (nat (- i)) else str_nat (nat i))"

text \<open>
  Python's truth test on an \<open>Optional[str]\<close> (\<open>x if x else y\<close>): both \<open>None\<close> and the
  empty string count as absent.
\<close>

definition truthy :: "string option \<Rightarrow> string option" where
  "truthy x = (case x of None \<Rightarrow> None | Some s \<Rightarrow> if s = [] then None else Some s)"

section \<open>pathlib, POSIX flavour\<close>

text \<open>
  A \<open>pathlib.Path\<close> is its parsed form: the root (\<open>''''\<close>, \<open>''/''\<close> or \<open>''//''\<close>) and
  the list of components. Parsing drops empty components and \<open>.\<close>; it keeps \<open>..\<close>.
\<close>

datatype path = PosixPath (root: string) (parts: "string list")

fun split_sep :: "string \<Rightarrow> string list" where
  "split_sep [] = [[]]"
| "split_sep (c # cs) =
     (if c = CHR ''/'' then [] # split_sep cs
      else (case split_sep cs of [] \<Rightarrow> [[c]] | x # xs \<Rightarrow> (c # x) # xs))"

definition splitroot :: "string \<Rightarrow> string \<times> string" where
  "splitroot p =
     (if take 1 p \<noteq> ''/'' then ('''', p)
      else if take 1 (drop 1 p) \<noteq> ''/'' \<or> take 1 (drop 2 p) = ''/'' then (''/'', drop 1 p)
      else (''//'', drop 2 p))"

definition Path :: "string \<Rightarrow> path" where
  "Path s = (case splitroot s of (r, rel) \<Rightarrow>
               PosixPath r (filter (\<lambda>x. x \<noteq> [] \<and> x \<noteq> ''.'') (split_sep rel)))"

fun join_sep :: "string list \<Rightarrow> string" where
  "join_sep [] = []"
| "join_sep [x] = x"
| "join_sep (x # y # ys) = x @ ''/'' @ join_sep (y # ys)"

definition str_path :: "path \<Rightarrow> string" where
  "str_path p = (if root p = [] \<and> parts p = [] then ''.'' else root p @ join_sep (parts p))"

definition name :: "path \<Rightarrow> string" where
  "name p = (if parts p = [] then [] else last (parts p))"

text \<open>
  \<open>rfind_dot s\<close> is \<open>s.rfind('.')\<close>, with \<open>None\<close> for Python's \<open>-1\<close>.
\<close>

fun rfind_dot :: "string \<Rightarrow> nat option" where
  "rfind_dot [] = None"
| "rfind_dot (c # cs) =
     (case rfind_dot cs of
        Some i \<Rightarrow> Some (Suc i)
      | None \<Rightarrow> if c = CHR ''.'' then Some 0 else None)"

definition stem :: "path \<Rightarrow> string" where
  "stem p =
     (case rfind_dot (name p) of
        None \<Rightarrow> name p
      | Some i \<Rightarrow> if 0 < i \<and> i < length (name p) - 1 then take i (name p) else name p)"

definition parent :: "path \<Rightarrow> path" where
  "parent p = (if parts p = [] then p else PosixPath (root p) (butlast (parts p)))"

text \<open>\<open>joinpath p s\<close> is \<open>p / s\<close>: an absolute right operand replaces the left one.\<close>

definition joinpath :: "path \<Rightarrow> string \<Rightarrow> path" where
  "joinpath p s =
     (let q = Path s in if root q \<noteq> [] then q else PosixPath (root p) (parts p @ parts q))"

text \<open>\<open>is_under d p\<close>: \<open>p\<close> is \<open>d\<close> itself or lies below it.\<close>

definition is_under :: "path \<Rightarrow> path \<Rightarrow> bool" where
  "is_under d p = (root p = root d \<and> take (length (parts d)) (parts p) = parts d)"

text \<open>The path itself and every ancestor, the root first.\<close>

definition lineage :: "path \<Rightarrow> path list" where
  "lineage p = map (\<lambda>n. PosixPath (root p) (take n (parts p))) [0..<Suc (length (parts p))]"

section \<open>The world the program runs in\<close>

text \<open>
  Exceptions and \<open>sys.exit\<close> are values. \<open>sys.exit\<close> with a string prints the string
  on standard error and ends the process with status 1; an exception nobody catches
  ends it with a traceback and status 1; returning from \<open>main\<close> ends it with status 0.
\<close>

datatype exn =
    CalledProcessError "string list" int
  | RuntimeError
  | FileExistsError
  | OSError
  | EngineError

datatype abort = SystemExit string | Raised exn

text \<open>
  Every call that leaves the program is logged, at the moment of the call, so that
  the order of effects can be stated.
\<close>

datatype event =
    PickFileDialog
  | Exists path
  | Import string
  | Which string
  | Mkdtemp path
  | Run "string list" int
  | LoadModel string string
  | Transcribe string "string option"
  | Mkdir path
  | OpenWrite path
  | Print string
  | Rmtree path

record world =
  dirs :: "path set"
  files :: "path \<rightharpoonup> ustr"
  trace :: "event list"

text \<open>
  The transcription engine is opaque: a loaded model is the function from the media
  path and the language to the result dictionary, \<open>None\<close> when inference raises.
\<close>

datatype whisper_model =
  WhisperModel (transcribe: "string \<Rightarrow> string option \<Rightarrow> (string \<rightharpoonup> ustr) option")

text \<open>
  What the surroundings answer:
  \<^item> \<open>dialog\<close>: what \<open>askopenfilename\<close> returns (the empty string when cancelled),
    \<open>None\<close> when tkinter raises;
  \<^item> \<open>home\<close>: \<open>os.path.expanduser\<close> on a first component that starts with \<open>~\<close>;
  \<^item> \<open>which\<close>: \<open>shutil.which\<close>;
  \<^item> \<open>gettempdir\<close>, \<open>candidate_names\<close>: the temporary area and the sequence of
    random names \<open>tempfile.mkdtemp\<close> tries;
  \<^item> \<open>returncode\<close>: the exit status of a child process; \<open>wav_data\<close>: what a
    successful FFmpeg run stores in its output file; \<open>str_error\<close>: how
    \<open>CalledProcessError\<close> prints;
  \<^item> \<open>load_model\<close>: \<open>whisper.load_model\<close>, \<open>None\<close> when it raises;
  \<^item> \<open>denied\<close>: the paths the operating system refuses to create or to open for
    writing; \<open>rmtree_fails\<close>: whether \<open>shutil.rmtree\<close> raises.
\<close>

record env =
  dialog :: "string option"
  home :: "string \<Rightarrow> string"
  whisper_installed :: bool
  torch_installed :: bool
  cuda_is_available :: bool
  which :: "string \<Rightarrow> string option"
  gettempdir :: string
  candidate_names :: "string list"
  returncode :: "string list \<Rightarrow> int"
  wav_data :: ustr
  str_error :: "string list \<Rightarrow> int \<Rightarrow> string"
  load_model :: "string \<Rightarrow> string \<Rightarrow> whisper_model option"
  denied :: "path \<Rightarrow> bool"
  rmtree_fails :: bool

text \<open>The parsed command line (the namespace \<open>argparse\<close> returns).\<close>

record args =
  input :: "string option"
  model :: string
  language :: "string option"
  audio_track :: "int option"
  outdir :: "string option"
  device :: "string option"

type_synonym 'a comp = "world \<Rightarrow> (abort + 'a) \<times> world"

definition ret :: "'a \<Rightarrow> 'a comp" where
  "ret x = (\<lambda>w. (Inr x, w))"

definition raise :: "exn \<Rightarrow> 'a comp" where
  "raise e = (\<lambda>w. (Inl (Raised e), w))"

definition sys_exit :: "string \<Rightarrow> 'a comp" where
  "sys_exit msg = (\<lambda>w. (Inl (SystemExit msg), w))"

definition and_then :: "'a comp \<Rightarrow> ('a \<Rightarrow> 'b comp) \<Rightarrow> 'b comp" where
  "and_then m f = (\<lambda>w. case m w of (Inl a, w') \<Rightarrow> (Inl a, w') | (Inr x, w') \<Rightarrow> f x w')"

definition log :: "event \<Rightarrow> unit comp" where
  "log ev = (\<lambda>w. (Inr (), w\<lparr>trace := trace w @ [ev]\<rparr>))"

definition exit_status :: "(abort + 'a) \<Rightarrow> nat" where
  "exit_status r = (case r of Inr _ \<Rightarrow> 0 | Inl _ \<Rightarrow> 1)"

subsection \<open>Library calls\<close>

definition exists :: "path \<Rightarrow> bool comp" where
  "exists p = and_then (log (Exists p)) (\<lambda>_ w. (Inr (p \<in> dirs w \<or> files w p \<noteq> None), w))"

text \<open>
  \<open>Path.expanduser\<close>: only a relative path whose first component starts with \<open>~\<close>
  changes; when the home directory cannot be determined, \<open>RuntimeError\<close>.
\<close>

definition expanduser :: "env \<Rightarrow> path \<Rightarrow> path comp" where
  "expanduser env p =
     (case parts p of
        [] \<Rightarrow> ret p
      | first # rest \<Rightarrow>
          if root p = [] \<and> take 1 first = ''~'' then
            (let homedir = home env first in
             if take 1 homedir = ''~'' then raise RuntimeError
             else ret (PosixPath (root (Path homedir)) (parts (Path homedir) @ rest)))
          else ret p)"

text \<open>
  \<open>tempfile.mkdtemp(prefix=...)\<close>: the first candidate name that does not exist yet is
  created; \<open>FileExistsError\<close> when every candidate exists.
\<close>

fun mkdtemp_try :: "string \<Rightarrow> string \<Rightarrow> string list \<Rightarrow> string comp" where
  "mkdtemp_try dir prefix [] w = (Inl (Raised FileExistsError), w)"
| "mkdtemp_try dir prefix (n # ns) w =
     (let file = dir @ ''/'' @ prefix @ n in
      if Path file \<in> dirs w \<or> files w (Path file) \<noteq> None then mkdtemp_try dir prefix ns w
      else (Inr file, w\<lparr>dirs := insert (Path file) (dirs w),
                          trace := trace w @ [Mkdtemp (Path file)]\<rparr>))"

definition mkdtemp :: "env \<Rightarrow> string \<Rightarrow> string comp" where
  "mkdtemp env prefix = mkdtemp_try (gettempdir env) prefix (candidate_names env)"

text \<open>
  \<open>subprocess.run(cmd, check=True)\<close>: a non-zero exit status raises
  \<open>CalledProcessError\<close>. The only process the program starts is FFmpeg, whose last
  argument is its output file: a successful run stores the audio there, replacing
  what was there; a failed run is modelled as storing nothing.
\<close>

definition subprocess_run :: "env \<Rightarrow> string list \<Rightarrow> unit comp" where
  "subprocess_run env cmd =
     and_then (log (Run cmd (returncode env cmd))) (\<lambda>_.
       if returncode env cmd \<noteq> 0 then raise (CalledProcessError cmd (returncode env cmd))
       else (\<lambda>w. (Inr (), case cmd of [] \<Rightarrow> w
                            | _ # _ \<Rightarrow> w\<lparr>files := (files w)(Path (last cmd) \<mapsto> wav_data env)\<rparr>)))"

definition whisper_load_model :: "env \<Rightarrow> string \<Rightarrow> string \<Rightarrow> whisper_model comp" where
  "whisper_load_model env nm dev =
     and_then (log (LoadModel nm dev)) (\<lambda>_.
       case load_model env nm dev of None \<Rightarrow> raise EngineError | Some m \<Rightarrow> ret m)"

definition model_transcribe ::
  "whisper_model \<Rightarrow> string \<Rightarrow> string option \<Rightarrow> (string \<rightharpoonup> ustr) comp" where
  "model_transcribe m audio lang =
     and_then (log (Transcribe audio lang)) (\<lambda>_.
       case transcribe m audio lang of None \<Rightarrow> raise EngineError | Some r \<Rightarrow> ret r)"

text \<open>
  \<open>Path.mkdir(parents=True, exist_ok=True)\<close>: nothing to do for an existing directory;
  an error when the path or an ancestor is a file or the system refuses; otherwise the
  directory and its missing ancestors exist afterwards.
\<close>

definition mkdir :: "env \<Rightarrow> path \<Rightarrow> unit comp" where
  "mkdir env p =
     and_then (log (Mkdir p)) (\<lambda>_ w.
       if p \<in> dirs w then (Inr (), w)
       else if list_ex (\<lambda>q. files w q \<noteq> None) (lineage p) \<or> denied env p
         then (Inl (Raised OSError), w)
       else (Inr (), w\<lparr>dirs := dirs w \<union> set (lineage p)\<rparr>))"

text \<open>
  \<open>with open(p, "w", encoding="utf-8") as f: f.write(data)\<close>: the file is created or
  truncated and holds \<open>data\<close> afterwards. Opening fails on a directory, in a directory
  that does not exist, and where the system refuses.
\<close>

definition open_write :: "env \<Rightarrow> path \<Rightarrow> ustr \<Rightarrow> unit comp" where
  "open_write env p data =
     and_then (log (OpenWrite p)) (\<lambda>_ w.
       if p \<in> dirs w \<or> parent p \<notin> dirs w \<or> denied env p then (Inl (Raised OSError), w)
       else (Inr (), w\<lparr>files := (files w)(p \<mapsto> data)\<rparr>))"

text \<open>
  \<open>shutil.rmtree(d)\<close>: the directory and everything below it are gone, or the call
  raises; a call that raises is modelled as leaving the tree as it was.
\<close>

definition rmtree :: "env \<Rightarrow> path \<Rightarrow> unit comp" where
  "rmtree env d =
     and_then (log (Rmtree d)) (\<lambda>_ w.
       if rmtree_fails env then (Inl (Raised OSError), w)
       else (Inr (), w\<lparr>dirs := Set.filter (\<lambda>q. \<not> is_under d q) (dirs w),
                        files := (\<lambda>q. if is_under d q then None else files w q)\<rparr>))"

definition print :: "string \<Rightarrow> unit comp" where
  "print s = log (Print s)"

text \<open>\<open>import\<close> inside \<open>try ... except ImportError\<close>: the result says whether it worked.\<close>

definition try_import :: "string \<Rightarrow> bool \<Rightarrow> bool comp" where
  "try_import nm installed = and_then (log (Import nm)) (\<lambda>_. ret installed)"

section \<open>The program\<close>

text \<open>
  \<open>pick_file_dialog\<close>: the path the dialog returned, \<open>None\<close> when it was cancelled or
  when anything raised.
\<close>

definition pick_file_dialog :: "env \<Rightarrow> path option comp" where
  "pick_file_dialog env =
     and_then (log PickFileDialog) (\<lambda>_.
       case dialog env of
         None \<Rightarrow> ret None
       | Some file_path \<Rightarrow> ret (if file_path \<noteq> [] then Some (Path file_path) else None))"

definition ensure_ffmpeg :: "env \<Rightarrow> unit comp" where
  "ensure_ffmpeg env =
     and_then (log (Which ''ffmpeg'')) (\<lambda>_.
       if which env ''ffmpeg'' = None
       then sys_exit ''FFmpeg not found. Please install FFmpeg and ensure it is in your PATH.''
       else ret ())"

definition ffmpeg_cmd :: "path \<Rightarrow> int \<Rightarrow> path \<Rightarrow> string list" where
  "ffmpeg_cmd src track_index out_wav =
     [''ffmpeg'', ''-hide_banner'', ''-loglevel'', ''error'', ''-y'',
      ''-i'', str_path src,
      ''-vn'', ''-map'', ''0:a:'' @ str_int track_index,
      ''-acodec'', ''pcm_s16le'', ''-ar'', ''16000'', ''-ac'', ''1'',
      str_path out_wav]"

definition extract_track_to_wav :: "env \<Rightarrow> path \<Rightarrow> int \<Rightarrow> path comp" where
  "extract_track_to_wav env src track_index =
     and_then (ensure_ffmpeg env) (\<lambda>_.
     and_then (mkdtemp env ''whisper_'') (\<lambda>d.
       let tmpdir = Path d;
           out_wav = joinpath tmpdir ''audio_track.wav'';
           cmd = ffmpeg_cmd src track_index out_wav
       in and_then (subprocess_run env cmd) (\<lambda>_. ret out_wav)))"

text \<open>The sections of \<open>main\<close>, named after its comments.\<close>

definition get_input_path :: "env \<Rightarrow> args \<Rightarrow> path option comp" where
  "get_input_path env a =
     (case truthy (input a) of
        Some i \<Rightarrow> and_then (expanduser env (Path i)) (\<lambda>p. ret (Some p))
      | None \<Rightarrow> pick_file_dialog env)"

definition import_whisper :: "env \<Rightarrow> bool comp" where
  "import_whisper env =
     and_then (try_import ''whisper'' (whisper_installed env)) (\<lambda>ok.
       if ok then try_import ''torch'' (torch_installed env) else ret False)"

definition choose_device :: "env \<Rightarrow> args \<Rightarrow> string" where
  "choose_device env a =
     (case truthy (device a) of
        Some d \<Rightarrow> d
      | None \<Rightarrow> if cuda_is_available env then ''cuda'' else ''cpu'')"

definition prepare_input :: "env \<Rightarrow> args \<Rightarrow> path \<Rightarrow> (path \<times> path option) comp" where
  "prepare_input env a src_path =
     (case audio_track a of
        Some k \<Rightarrow>
          (\<lambda>w. case extract_track_to_wav env src_path k w of
                 (Inr media_for_whisper, w') \<Rightarrow>
                    (Inr (media_for_whisper, Some (parent media_for_whisper)), w')
               | (Inl (Raised (CalledProcessError cmd rc)), w') \<Rightarrow>
                    sys_exit (''FFmpeg failed to extract audio track '' @ str_int k @ '': ''
                              @ str_error env cmd rc) w'
               | (Inl other, w') \<Rightarrow> (Inl other, w'))
      | None \<Rightarrow> ret (src_path, None))"

definition determine_output_path :: "env \<Rightarrow> args \<Rightarrow> path \<Rightarrow> path comp" where
  "determine_output_path env a src_path =
     and_then (case truthy (outdir a) of
                 Some d \<Rightarrow> expanduser env (Path d)
               | None \<Rightarrow> ret (parent src_path)) (\<lambda>out_dir.
     and_then (mkdir env out_dir) (\<lambda>_.
       ret (joinpath out_dir (stem src_path @ ''_transcript.txt''))))"

definition transcript_data :: "(string \<rightharpoonup> ustr) \<Rightarrow> ustr" where
  "transcript_data result =
     (let text = strip (case result ''text'' of None \<Rightarrow> [] | Some t \<Rightarrow> t)
      in text @ (if text \<noteq> [] \<and> \<not> endswith text [10] then [10] else []))"

definition save_transcript :: "env \<Rightarrow> path \<Rightarrow> (string \<rightharpoonup> ustr) \<Rightarrow> unit comp" where
  "save_transcript env out_txt result = open_write env out_txt (transcript_data result)"

text \<open>
  The transcript writer: the two sections \<open>Determine output path\<close> and
  \<open>Save transcript\<close> of \<open>main\<close>, one after the other.
\<close>

definition write_transcript ::
  "env \<Rightarrow> args \<Rightarrow> path \<Rightarrow> (string \<rightharpoonup> ustr) \<Rightarrow> path comp" where
  "write_transcript env a src_path result =
     and_then (determine_output_path env a src_path) (\<lambda>out_txt.
     and_then (save_transcript env out_txt result) (\<lambda>_. ret out_txt))"

definition cleanup_temp :: "env \<Rightarrow> path option \<Rightarrow> unit comp" where
  "cleanup_temp env tmp_to_cleanup =
     (case tmp_to_cleanup of
        None \<Rightarrow> ret ()
      | Some t \<Rightarrow>
          and_then (exists t) (\<lambda>there.
            if there then
              (\<lambda>w. case rmtree env t w of
                     (Inl (Raised e), w') \<Rightarrow> (Inr (), w')
                   | r \<Rightarrow> r)
            else ret ()))"

definition main :: "env \<Rightarrow> args \<Rightarrow> unit comp" where
  "main env a =
     and_then (get_input_path env a) (\<lambda>src.
     and_then (case src of None \<Rightarrow> ret False | Some p \<Rightarrow> exists p) (\<lambda>found.
       case src of
         None \<Rightarrow> sys_exit ''No valid input file selected/provided.''
       | Some src_path \<Rightarrow>
           if \<not> found then sys_exit ''No valid input file selected/provided.''
           else
     and_then (import_whisper env) (\<lambda>imported.
       if \<not> imported
       then sys_exit (''The 'whisper' package is not installed. '' @
                      ''Install via: pip install -U openai-whisper'')
       else
     and_then (prepare_input env a src_path) (\<lambda>(media_for_whisper, tmp_to_cleanup).
     and_then (whisper_load_model env (model a) (choose_device env a)) (\<lambda>m.
     and_then (model_transcribe m (str_path media_for_whisper) (language a)) (\<lambda>result.
     and_then (write_transcript env a src_path result) (\<lambda>out_txt.
     and_then (print (''Transcript saved to: '' @ str_path out_txt)) (\<lambda>_.
       cleanup_temp env tmp_to_cleanup))))))))"

text \<open>
  What \<open>main\<close> does once the input for Whisper is prepared (a name for the rest of
  its body, from \<open>Load model\<close> to the end).
\<close>

abbreviation after_prepare :: "env \<Rightarrow> args \<Rightarrow> path \<Rightarrow> path \<Rightarrow> path option \<Rightarrow> unit comp" where
  "after_prepare env a src_path media_for_whisper tmp_to_cleanup \<equiv>
     and_then (whisper_load_model env (model a) (choose_device env a)) (\<lambda>m.
     and_then (model_transcribe m (str_path media_for_whisper) (language a)) (\<lambda>result.
     and_then (write_transcript env a src_path result) (\<lambda>out_txt.
     and_then (print (''Transcript saved to: '' @ str_path out_txt)) (\<lambda>_.
       cleanup_temp env tmp_to_cleanup))))"

text \<open>
  One run of the program: \<open>main\<close> started with an empty log. The result is how the
  process ends and the world it leaves behind.
\<close>

definition program :: "env \<Rightarrow> args \<Rightarrow> world \<Rightarrow> (abort + unit) \<times> world" where
  "program env a w = main env a (w\<lparr>trace := []\<rparr>)"

text \<open>
  The calls that read, write or stage a file. Asking whether a path exists, importing a
  module, searching the \<open>PATH\<close>, showing the dialog and printing are not among them.
\<close>

fun file_work :: "event \<Rightarrow> bool" where
  "file_work (Mkdtemp _) = True"
| "file_work (Run _ _) = True"
| "file_work (LoadModel _ _) = True"
| "file_work (Transcribe _ _) = True"
| "file_work (Mkdir _) = True"
| "file_work (OpenWrite _) = True"
| "file_work (Rmtree _) = True"
| "file_work _ = False"

text \<open>The value of a string of decimal digits, to read back what \<open>str_int\<close> printed.\<close>

definition digit_value :: "char \<Rightarrow> nat" where
  "digit_value c = of_char c - 48"

definition int_of_digits :: "string \<Rightarrow> nat" where
  "int_of_digits s = foldl (\<lambda>acc c. 10 * acc + digit_value c) 0 s"

subsection \<open>A concrete run, for evaluation\<close>

definition stub_model :: "(string \<rightharpoonup> ustr) option \<Rightarrow> whisper_model" where
  "stub_model answer = WhisperModel (\<lambda>audio lang. answer)"

definition demo_env :: env where
  "demo_env =
     \<lparr>dialog = None,
      home = (\<lambda>s. ''/home/u''),
      whisper_installed = True,
      torch_installed = True,
      cuda_is_available = True,
      which = (\<lambda>s. Some ''/usr/bin/ffmpeg''),
      gettempdir = ''/tmp'',
      candidate_names = [''a1'', ''b2''],
      returncode = (\<lambda>cmd. 0),
      wav_data = [82, 73, 70, 70],
      str_error = (\<lambda>cmd rc. ''Command returned non-zero exit status '' @ str_int rc @ ''.''),
      load_model = (\<lambda>nm dev. Some (stub_model (Some [''text'' \<mapsto> u ''  Hi there.  '']))),
      denied = (\<lambda>p. False),
      rmtree_fails = False\<rparr>"

definition demo_args :: args where
  "demo_args =
     \<lparr>input = Some ''/data/multi.mkv'', model = ''medium'', language = None,
      audio_track = Some 1, outdir = None, device = None\<rparr>"

definition demo_world :: world where
  "demo_world =
     \<lparr>dirs = {PosixPath ''/'' [], PosixPath ''/'' [''data''], PosixPath ''/'' [''tmp'']},
      files = [PosixPath ''/'' [''data'', ''multi.mkv''] \<mapsto> [26, 69, 223, 163]],
      trace = []\<rparr>"

section \<open>Evaluation\<close>

lemmas comp_defs = and_then_def ret_def raise_def sys_exit_def log_def

lemmas path_defs =
  Path_def splitroot_def joinpath_def parent_def stem_def name_def str_path_def lineage_def
  is_under_def

lemmas lib_defs =
  exists_def expanduser_def mkdtemp_def subprocess_run_def whisper_load_model_def
  model_transcribe_def mkdir_def open_write_def rmtree_def print_def try_import_def

lemmas prog_defs =
  program_def main_def get_input_path_def pick_file_dialog_def ensure_ffmpeg_def ffmpeg_cmd_def
  extract_track_to_wav_def import_whisper_def choose_device_def prepare_input_def
  determine_output_path_def transcript_data_def save_transcript_def write_transcript_def
  cleanup_temp_def truthy_def

lemmas str_defs =
  str_int_def str_nat.simps digit_char_def strip_def lstrip_def rstrip_def py_isspace_def
  endswith_def u_def

lemmas demo_defs = demo_env_def demo_args_def demo_world_def stub_model_def

section \<open>Device resolution\<close>

text \<open>
  C4, as stated: the explicit \<open>--device\<close> override is returned verbatim whenever one is
  supplied. It fails for the empty override (\<open>--device ""\<close>): the program tests the
  argument for truth, the empty string is false, and the accelerator probe decides.
\<close>

theorem choose_device_empty_override:
  "device (demo_args\<lparr>device := Some ''''\<rparr>) = Some '''' \<and>
   choose_device demo_env (demo_args\<lparr>device := Some ''''\<rparr>) = ''cuda'' \<and>
   choose_device demo_env (demo_args\<lparr>device := Some ''''\<rparr>) \<noteq> ''''"
  by (simp add: choose_device_def truthy_def demo_defs)

text \<open>
  C4, amended: a non-empty \<open>--device\<close> override is returned verbatim, whatever the
  accelerator probe says; with no override, or an empty one, the result is \<open>cuda\<close> when
  the probe reports an accelerator and \<open>cpu\<close> otherwise.
\<close>

theorem choose_device_precedence:
  "(device a = Some d \<and> d \<noteq> [] \<longrightarrow> choose_device env a = d) \<and>
   (device a = None \<or> device a = Some [] \<longrightarrow>
      choose_device env a = (if cuda_is_available env then ''cuda'' else ''cpu''))"
  by (auto simp: choose_device_def truthy_def)

theorem choose_device_precedence_witness:
  "choose_device demo_env (demo_args\<lparr>device := Some ''cpu''\<rparr>) = ''cpu'' \<and>
   choose_device (demo_env\<lparr>cuda_is_available := False\<rparr>) demo_args = ''cpu'' \<and>
   choose_device demo_env demo_args = ''cuda''"
  using choose_device_precedence [of "demo_args\<lparr>device := Some ''cpu''\<rparr>" "''cpu''" demo_env]
    choose_device_precedence [of demo_args "''x''" "demo_env\<lparr>cuda_is_available := False\<rparr>"]
    choose_device_precedence [of demo_args "''x''" demo_env]
  by (simp add: demo_defs)

section \<open>What the transcript file holds\<close>

lemma lstrip_split:
  "s = takeWhile py_isspace s @ lstrip s"
  by (simp add: lstrip_def)

lemma rstrip_split:
  "s = rstrip s @ rev (takeWhile py_isspace (rev s))"
  by (simp add: rstrip_def flip: rev_append)

lemma strip_split:
  "s = takeWhile py_isspace s @ strip s @ rev (takeWhile py_isspace (rev (lstrip s)))"
proof -
  have "lstrip s = strip s @ rev (takeWhile py_isspace (rev (lstrip s)))"
    unfolding strip_def by (rule rstrip_split)
  with lstrip_split [of s] show ?thesis
    by simp
qed

lemma takeWhile_all_space:
  "list_all py_isspace (takeWhile py_isspace s)"
  by (induction s) auto

lemma rstrip_last:
  assumes "rstrip s \<noteq> []"
  shows "\<not> py_isspace (last (rstrip s))"
proof -
  from assms have ne: "dropWhile py_isspace (rev s) \<noteq> []"
    by (simp add: rstrip_def)
  then have "\<not> py_isspace (hd (dropWhile py_isspace (rev s)))"
    by (rule hd_dropWhile)
  with ne show ?thesis
    by (simp add: rstrip_def last_rev)
qed

lemma strip_last:
  "strip s \<noteq> [] \<Longrightarrow> \<not> py_isspace (last (strip s))"
  unfolding strip_def by (rule rstrip_last)

lemma strip_hd:
  assumes "strip s \<noteq> []"
  shows "\<not> py_isspace (hd (strip s))"
proof -
  have split: "lstrip s = strip s @ rev (takeWhile py_isspace (rev (lstrip s)))"
    unfolding strip_def by (rule rstrip_split)
  with assms have ne: "lstrip s \<noteq> []"
    by auto
  from split assms have "hd (lstrip s) = hd (strip s)"
    by (metis hd_append2)
  moreover from ne have "\<not> py_isspace (hd (lstrip s))"
    unfolding lstrip_def by (rule hd_dropWhile)
  ultimately show ?thesis
    by simp
qed

lemma endswith_newline_space:
  assumes "endswith s [10]"
  shows "s \<noteq> [] \<and> py_isspace (last s)"
proof -
  from assms have len: "1 \<le> length s" and d: "drop (length s - 1) s = [10]"
    by (simp_all add: endswith_def)
  from len have ne: "s \<noteq> []"
    by auto
  then have "last s = last (drop (length s - 1) s)"
    by simp
  with d have "last s = 10"
    by simp
  with ne show ?thesis
    by (simp add: py_isspace_def)
qed

lemma transcript_data_text:
  assumes "result ''text'' = Some t"
  shows "transcript_data result = (if strip t = [] then [] else strip t @ [10])"
proof (cases "strip t = []")
  case True
  with assms show ?thesis
    by (simp add: transcript_data_def)
next
  case False
  then have "\<not> endswith (strip t) [10]"
    using endswith_newline_space strip_last by blast
  with False assms show ?thesis
    by (simp add: transcript_data_def)
qed

lemma open_write_stores:
  assumes "open_write env p data w = (Inr (), w')"
  shows "files w' = (files w)(p \<mapsto> data) \<and> dirs w' = dirs w \<and>
         trace w' = trace w @ [OpenWrite p] \<and>
         p \<notin> dirs w \<and> parent p \<in> dirs w \<and> \<not> denied env p"
  using assms by (auto simp: open_write_def comp_defs split: if_splits)

text \<open>
  C2: for a result whose text is \<open>t\<close>, a transcript that was written holds exactly the
  stripped text and one newline when the stripped text is not empty, and nothing when
  it is empty. The stripped text is \<open>t\<close> without the whitespace at its two ends: what
  was removed is whitespace only, and what remains neither begins nor ends with it.
\<close>

theorem transcript_written:
  assumes "result ''text'' = Some t"
    and "save_transcript env out_txt result w = (Inr (), w')"
  shows "files w' out_txt = Some (if strip t = [] then [] else strip t @ [10]) \<and>
         (\<exists>a b. t = a @ strip t @ b \<and> list_all py_isspace a \<and> list_all py_isspace b) \<and>
         (strip t \<noteq> [] \<longrightarrow> \<not> py_isspace (hd (strip t)) \<and> \<not> py_isspace (last (strip t)))"
proof -
  from assms(2) have "files w' out_txt = Some (transcript_data result)"
    by (auto simp: save_transcript_def dest: open_write_stores)
  with assms(1) have content:
    "files w' out_txt = Some (if strip t = [] then [] else strip t @ [10])"
    by (simp add: transcript_data_text)
  have "t = takeWhile py_isspace t @ strip t @ rev (takeWhile py_isspace (rev (lstrip t)))"
    by (rule strip_split)
  moreover have "list_all py_isspace (takeWhile py_isspace t)"
    by (rule takeWhile_all_space)
  moreover have "list_all py_isspace (rev (takeWhile py_isspace (rev (lstrip t))))"
    using takeWhile_all_space [of "rev (lstrip t)"] by (simp add: list_all_iff)
  ultimately have removed:
    "\<exists>a b. t = a @ strip t @ b \<and> list_all py_isspace a \<and> list_all py_isspace b"
    by blast
  from content removed strip_hd strip_last show ?thesis
    by blast
qed

theorem transcript_written_witness:
  "files (snd (save_transcript demo_env (Path ''/data/clip_transcript.txt'')
                 [''text'' \<mapsto> u ''hello''] demo_world))
     (Path ''/data/clip_transcript.txt'') = Some (u ''hello'' @ [10]) \<and>
   files (snd (save_transcript demo_env (Path ''/data/clip_transcript.txt'')
                 [''text'' \<mapsto> []] demo_world))
     (Path ''/data/clip_transcript.txt'') = Some [] \<and>
   files (snd (save_transcript demo_env (Path ''/data/clip_transcript.txt'')
                 [''text'' \<mapsto> u ''hello'' @ [10]] demo_world))
     (Path ''/data/clip_transcript.txt'') = Some (u ''hello'' @ [10])"
  using
    transcript_written [of "[''text'' \<mapsto> u ''hello'']" "u ''hello''" demo_env
      "Path ''/data/clip_transcript.txt''" demo_world
      "snd (save_transcript demo_env (Path ''/data/clip_transcript.txt'')
              [''text'' \<mapsto> u ''hello''] demo_world)"]
    transcript_written [of "[''text'' \<mapsto> []]" "[]" demo_env
      "Path ''/data/clip_transcript.txt''" demo_world
      "snd (save_transcript demo_env (Path ''/data/clip_transcript.txt'')
              [''text'' \<mapsto> []] demo_world)"]
    transcript_written [of "[''text'' \<mapsto> u ''hello'' @ [10]]" "u ''hello'' @ [10]" demo_env
      "Path ''/data/clip_transcript.txt''" demo_world
      "snd (save_transcript demo_env (Path ''/data/clip_transcript.txt'')
              [''text'' \<mapsto> u ''hello'' @ [10]] demo_world)"]
  by (simp add: prog_defs lib_defs path_defs comp_defs str_defs demo_defs)

section \<open>Facts about paths\<close>

lemma split_sep_nonempty: "split_sep s \<noteq> []"
  by (induction s) (auto split: list.splits)

lemma split_sep_no_sep: "CHR ''/'' \<notin> set s \<Longrightarrow> split_sep s = [s]"
  by (induction s) auto

lemma split_sep_parts: "x \<in> set (split_sep s) \<Longrightarrow> CHR ''/'' \<notin> set x"
proof (induction s arbitrary: x)
  case Nil
  then show ?case by simp
next
  case (Cons c cs)
  then show ?case
    by (cases "split_sep cs") (auto split: if_splits)
qed

lemma Path_parts: "x \<in> set (parts (Path s)) \<Longrightarrow> CHR ''/'' \<notin> set x"
  by (auto simp: Path_def split: prod.splits dest: split_sep_parts)

lemma Path_single:
  assumes "CHR ''/'' \<notin> set s" and "s \<noteq> []" and "s \<noteq> ''.''"
  shows "Path s = PosixPath [] [s]"
proof -
  from assms(1,2) have "take 1 s \<noteq> ''/''"
    by (cases s) auto
  then have "splitroot s = ([], s)"
    by (simp add: splitroot_def)
  with assms show ?thesis
    by (simp add: Path_def split_sep_no_sep)
qed

lemma Path_absolute: "take 1 s = ''/'' \<Longrightarrow> root (Path s) \<noteq> []"
  by (auto simp: Path_def splitroot_def split: prod.splits)

lemma rfind_dot_Some:
  "rfind_dot s = Some i \<Longrightarrow> i < length s \<and> s ! i = CHR ''.'' \<and> CHR ''.'' \<notin> set (drop (Suc i) s)"
proof (induction s arbitrary: i)
  case Nil
  then show ?case by simp
next
  case (Cons c cs)
  show ?case
  proof (cases "rfind_dot cs")
    case None
    have "CHR ''.'' \<notin> set cs" using None
      by (induction cs) (auto split: option.splits if_splits)
    with Cons.prems None show ?thesis
      by (auto split: if_splits)
  next
    case (Some j)
    with Cons.prems have "i = Suc j" by simp
    with Cons.IH [OF Some] show ?thesis by simp
  qed
qed

lemma stem_ext:
  "\<exists>ext. name p = stem p @ ext \<and>
     (ext = [] \<or> (\<exists>e. ext = CHR ''.'' # e \<and> e \<noteq> [] \<and> CHR ''.'' \<notin> set e \<and> stem p \<noteq> []))"
proof (cases "rfind_dot (name p)")
  case None
  then show ?thesis by (simp add: stem_def)
next
  case (Some i)
  show ?thesis
  proof (cases "0 < i \<and> i < length (name p) - 1")
    case False
    with Some have "stem p = name p" by (auto simp: stem_def)
    then show ?thesis by simp
  next
    case True
    with Some have st: "stem p = take i (name p)" by (simp add: stem_def)
    from rfind_dot_Some [OF Some] have i: "i < length (name p)" and dot: "name p ! i = CHR ''.''"
      and rest: "CHR ''.'' \<notin> set (drop (Suc i) (name p))" by simp_all
    from i dot have "name p = take i (name p) @ CHR ''.'' # drop (Suc i) (name p)"
      by (metis id_take_nth_drop)
    moreover from True have "Suc i < length (name p)" by arith
    then have "drop (Suc i) (name p) \<noteq> []" by simp
    moreover from True i have "take i (name p) \<noteq> []" by auto
    ultimately show ?thesis using st rest by metis
  qed
qed

lemma stem_no_sep:
  assumes "\<forall>x\<in>set (parts p). CHR ''/'' \<notin> set x"
  shows "CHR ''/'' \<notin> set (stem p)"
proof -
  from assms have "CHR ''/'' \<notin> set (name p)"
    by (auto simp: name_def)
  moreover have "set (stem p) \<subseteq> set (name p)"
    by (auto simp: stem_def split: option.splits dest: in_set_takeD)
  ultimately show ?thesis by blast
qed

lemma joinpath_transcript:
  assumes "\<forall>x\<in>set (parts src). CHR ''/'' \<notin> set x"
  shows "joinpath d (stem src @ ''_transcript.txt'') =
         PosixPath (root d) (parts d @ [stem src @ ''_transcript.txt''])"
proof -
  have "CHR ''/'' \<notin> set (stem src @ ''_transcript.txt'')"
    using stem_no_sep [OF assms] by simp
  moreover have "stem src @ ''_transcript.txt'' \<noteq> []" by simp
  moreover have "stem src @ ''_transcript.txt'' \<noteq> ''.''"
    by (metis append_is_Nil_conv butlast.simps(2) butlast_append list.distinct(1) butlast_snoc)
  ultimately have "Path (stem src @ ''_transcript.txt'') = PosixPath [] [stem src @ ''_transcript.txt'']"
    by (rule Path_single)
  then show ?thesis by (simp add: joinpath_def)
qed

section \<open>Facts about the library calls\<close>

lemma expanduser_pure:
  assumes "expanduser env p w = (r, w')"
  shows "w' = w \<and> expanduser env p v = (r, v)"
  using assms
  by (auto simp: expanduser_def comp_defs Let_def split: list.splits if_splits)

lemma expanduser_parts:
  assumes "expanduser env p w = (Inr q, w')"
    and "\<forall>x\<in>set (parts p). CHR ''/'' \<notin> set x"
  shows "\<forall>x\<in>set (parts q). CHR ''/'' \<notin> set x"
  using assms
  by (auto simp: expanduser_def comp_defs Let_def split: list.splits if_splits dest: Path_parts)

lemma expanduser_absolute:
  "root p \<noteq> [] \<Longrightarrow> expanduser env p = ret p"
  by (auto simp: expanduser_def split: list.splits)

lemma get_input_path_parts:
  assumes "get_input_path env a w = (Inr (Some src), w')"
  shows "\<forall>x\<in>set (parts src). CHR ''/'' \<notin> set x"
proof (cases "truthy (input a)")
  case None
  with assms have "\<exists>s. src = Path s"
    by (auto simp: get_input_path_def pick_file_dialog_def comp_defs split: option.splits if_splits)
  then show ?thesis
    by (auto dest: Path_parts)
next
  case (Some i)
  with assms obtain w1 where "expanduser env (Path i) w = (Inr src, w1)"
    by (auto simp: get_input_path_def comp_defs split: sum.splits prod.splits)
  moreover have "\<forall>x\<in>set (parts (Path i)). CHR ''/'' \<notin> set x"
    by (auto dest: Path_parts)
  ultimately show ?thesis
    by (rule expanduser_parts)
qed

lemma lineage_self: "p \<in> set (lineage p)"
proof -
  have "PosixPath (root p) (take (length (parts p)) (parts p)) \<in> set (lineage p)"
    unfolding lineage_def by (auto simp del: take_all)
  then show ?thesis by simp
qed

lemma mkdir_done:
  assumes "mkdir env p w = (Inr (), w')"
  shows "p \<in> dirs w' \<and> dirs w \<subseteq> dirs w' \<and> files w' = files w \<and> trace w' = trace w @ [Mkdir p]"
  using assms lineage_self [of p]
  by (auto simp: mkdir_def comp_defs split: if_splits)

lemma mkdir_again:
  assumes "p \<in> dirs w"
  shows "mkdir env p w = (Inr (), w\<lparr>trace := trace w @ [Mkdir p]\<rparr>)"
  using assms by (simp add: mkdir_def comp_defs)

lemma parent_joined: "parent (PosixPath (root d) (parts d @ [x])) = d"
  by (simp add: parent_def)

lemma name_joined: "name (PosixPath r (ps @ [x])) = x"
  by (simp add: name_def)

section \<open>Where the transcript goes\<close>

lemma determine_output_path_result:
  assumes clean: "\<forall>x\<in>set (parts src_path). CHR ''/'' \<notin> set x"
    and run: "determine_output_path env a src_path w = (Inr out_txt, w')"
  shows "\<exists>out_dir.
           (case truthy (outdir a) of
              Some d \<Rightarrow> expanduser env (Path d) w = (Inr out_dir, w)
            | None \<Rightarrow> out_dir = parent src_path) \<and>
           mkdir env out_dir w = (Inr (), w') \<and>
           out_txt = PosixPath (root out_dir) (parts out_dir @ [stem src_path @ ''_transcript.txt''])"
proof (cases "truthy (outdir a)")
  case None
  with run have "mkdir env (parent src_path) w = (Inr (), w')"
    and "out_txt = joinpath (parent src_path) (stem src_path @ ''_transcript.txt'')"
    by (auto simp: determine_output_path_def comp_defs split: sum.splits prod.splits)
  with None clean show ?thesis
    by (simp add: joinpath_transcript)
next
  case (Some d)
  with run obtain out_dir w1 where e: "expanduser env (Path d) w = (Inr out_dir, w1)"
    and m: "mkdir env out_dir w1 = (Inr (), w')"
    and o: "out_txt = joinpath out_dir (stem src_path @ ''_transcript.txt'')"
    by (auto simp: determine_output_path_def comp_defs split: sum.splits prod.splits)
  from e have "w1 = w"
    using expanduser_pure by blast
  with e m o Some clean show ?thesis
    by (simp add: joinpath_transcript)
qed

lemma truthy_Some: "truthy x = Some d \<longleftrightarrow> x = Some d \<and> d \<noteq> []"
  by (auto simp: truthy_def split: option.splits)

lemma truthy_None: "truthy x = None \<longleftrightarrow> x = None \<or> x = Some []"
  by (auto simp: truthy_def split: option.splits)

text \<open>
  C6, as stated: the output directory is the explicit \<open>--outdir\<close> whenever one is
  given. It fails for the empty value (\<open>--outdir ""\<close>): the argument is tested for
  truth, so the source's parent directory is used, not the directory the empty path
  denotes (the current one).
\<close>

theorem outdir_empty_counterexample:
  "outdir (demo_args\<lparr>outdir := Some ''''\<rparr>) = Some '''' \<and>
   fst (determine_output_path demo_env (demo_args\<lparr>outdir := Some ''''\<rparr>)
          (Path ''/data/clip.mkv'') demo_world) =
     Inr (Path ''/data/clip_transcript.txt'') \<and>
   Path ''/data/clip_transcript.txt'' \<noteq> joinpath (Path '''') ''clip_transcript.txt''"
  by (simp add: prog_defs lib_defs path_defs comp_defs demo_defs)

text \<open>
  C6, amended: for the source path the program resolved, the transcript path has the
  file name \<open>{stem}_transcript.txt\<close> and lies directly in the output directory. The
  output directory is the source's parent when \<open>--outdir\<close> is absent or empty, and
  the user-expanded \<open>--outdir\<close> when it is given and not empty (the \<open>--outdir\<close>
  itself when that is absolute). The stem is the source's file name without its last
  extension: the name is the stem followed by nothing, or by a dot and a non-empty
  extension without further dots.
\<close>

theorem output_path_derivation:
  assumes "get_input_path env a w0 = (Inr (Some src_path), w1)"
    and "determine_output_path env a src_path w = (Inr out_txt, w')"
  shows "name out_txt = stem src_path @ ''_transcript.txt'' \<and>
         (outdir a = None \<or> outdir a = Some [] \<longrightarrow> parent out_txt = parent src_path) \<and>
         (\<forall>d. outdir a = Some d \<and> d \<noteq> [] \<longrightarrow>
               expanduser env (Path d) w = (Inr (parent out_txt), w)) \<and>
         (\<forall>d. outdir a = Some d \<and> take 1 d = ''/'' \<longrightarrow> parent out_txt = Path d) \<and>
         (\<exists>ext. name src_path = stem src_path @ ext \<and>
            (ext = [] \<or>
             (\<exists>e. ext = CHR ''.'' # e \<and> e \<noteq> [] \<and> CHR ''.'' \<notin> set e \<and> stem src_path \<noteq> [])))"
proof -
  from assms(1) have clean: "\<forall>x\<in>set (parts src_path). CHR ''/'' \<notin> set x"
    by (rule get_input_path_parts)
  from determine_output_path_result [OF clean assms(2)] obtain out_dir where
    dir: "case truthy (outdir a) of
            Some d \<Rightarrow> expanduser env (Path d) w = (Inr out_dir, w)
          | None \<Rightarrow> out_dir = parent src_path"
    and out: "out_txt = PosixPath (root out_dir) (parts out_dir @ [stem src_path @ ''_transcript.txt''])"
    by blast
  from out have nm: "name out_txt = stem src_path @ ''_transcript.txt''"
    by (simp add: name_joined)
  from out have par: "parent out_txt = out_dir"
    by (simp add: parent_joined)
  have absent: "outdir a = None \<or> outdir a = Some [] \<longrightarrow> parent out_txt = parent src_path"
    using dir par by (auto simp: truthy_def)
  have given: "\<forall>d. outdir a = Some d \<and> d \<noteq> [] \<longrightarrow>
                 expanduser env (Path d) w = (Inr (parent out_txt), w)"
    using dir par by (auto simp: truthy_def)
  have absolute: "\<forall>d. outdir a = Some d \<and> take 1 d = ''/'' \<longrightarrow> parent out_txt = Path d"
  proof (intro allI impI)
    fix d
    assume d: "outdir a = Some d \<and> take 1 d = ''/''"
    then have "d \<noteq> []" by auto
    with d given have "expanduser env (Path d) w = (Inr (parent out_txt), w)"
      by blast
    moreover from d have "expanduser env (Path d) = ret (Path d)"
      by (simp add: expanduser_absolute Path_absolute)
    ultimately show "parent out_txt = Path d"
      by (simp add: ret_def)
  qed
  from nm absent given absolute stem_ext [of src_path] show ?thesis
    by blast
qed

theorem output_path_derivation_witness:
  "fst (determine_output_path demo_env (demo_args\<lparr>input := Some ''/data/clip.mkv''\<rparr>)
          (Path ''/data/clip.mkv'') demo_world) =
     Inr (joinpath (parent (Path ''/data/clip.mkv'')) ''clip_transcript.txt'') \<and>
   str_path (joinpath (parent (Path ''/data/clip.mkv'')) ''clip_transcript.txt'') =
     ''/data/clip_transcript.txt'' \<and>
   stem (Path ''/data/clip.mkv'') = ''clip''"
  using output_path_derivation [of demo_env "demo_args\<lparr>input := Some ''/data/clip.mkv''\<rparr>"
      demo_world "Path ''/data/clip.mkv''" demo_world demo_world
      "joinpath (parent (Path ''/data/clip.mkv'')) ''clip_transcript.txt''"
      "snd (determine_output_path demo_env (demo_args\<lparr>input := Some ''/data/clip.mkv''\<rparr>)
              (Path ''/data/clip.mkv'') demo_world)"]
  by (simp add: prog_defs lib_defs path_defs comp_defs demo_defs)

section \<open>The transcript writer\<close>

lemma transcript_data_no_text:
  "result ''text'' = None \<Longrightarrow> transcript_data result = []"
  by (simp add: transcript_data_def strip_def lstrip_def rstrip_def)

lemma transcript_data_empty_text:
  "transcript_data (result(''text'' \<mapsto> [])) = []"
  by (simp add: transcript_data_def strip_def lstrip_def rstrip_def)

lemma open_write_succeeds:
  assumes "p \<notin> dirs w" and "parent p \<in> dirs w" and "\<not> denied env p"
  shows "open_write env p data w =
           (Inr (), w\<lparr>trace := trace w @ [OpenWrite p], files := (files w)(p \<mapsto> data)\<rparr>)"
  using assms by (simp add: open_write_def comp_defs)

text \<open>
  C10: a result without any \<open>text\<close> entry is written like one whose text is empty.
  Where the output path was derived and the system lets the file be opened (it is not a
  directory and not refused), the writer succeeds, the transcript exists at the derived
  path and is empty, and the run is the very run an empty text gives.
\<close>

theorem missing_text_written_empty:
  assumes "result ''text'' = None"
    and "get_input_path env a w0 = (Inr (Some src_path), w1)"
    and "determine_output_path env a src_path w = (Inr out_txt, w')"
    and "out_txt \<notin> dirs w'" and "\<not> denied env out_txt"
  shows "\<exists>w''. write_transcript env a src_path result w = (Inr out_txt, w'') \<and>
               files w'' out_txt = Some [] \<and>
               write_transcript env a src_path (result(''text'' \<mapsto> [])) w = (Inr out_txt, w'')"
proof -
  from assms(2) have clean: "\<forall>x\<in>set (parts src_path). CHR ''/'' \<notin> set x"
    by (rule get_input_path_parts)
  from determine_output_path_result [OF clean assms(3)] obtain out_dir where
    m: "mkdir env out_dir w = (Inr (), w')"
    and out: "out_txt = PosixPath (root out_dir) (parts out_dir @ [stem src_path @ ''_transcript.txt''])"
    by blast
  from m have "out_dir \<in> dirs w'"
    by (simp add: mkdir_done)
  with out have "parent out_txt \<in> dirs w'"
    by (simp add: parent_joined)
  with assms(4,5) have ow: "open_write env out_txt [] w' =
      (Inr (), w'\<lparr>trace := trace w' @ [OpenWrite out_txt], files := (files w')(out_txt \<mapsto> [])\<rparr>)"
    by (simp add: open_write_succeeds)
  let ?w = "w'\<lparr>trace := trace w' @ [OpenWrite out_txt], files := (files w')(out_txt \<mapsto> [])\<rparr>"
  from assms(1,3) ow have "write_transcript env a src_path result w = (Inr out_txt, ?w)"
    by (simp add: write_transcript_def save_transcript_def transcript_data_no_text comp_defs)
  moreover from assms(3) ow have
    "write_transcript env a src_path (result(''text'' \<mapsto> [])) w = (Inr out_txt, ?w)"
    by (simp add: write_transcript_def save_transcript_def transcript_data_empty_text comp_defs)
  moreover have "files ?w out_txt = Some []"
    by simp
  ultimately show ?thesis
    by blast
qed

theorem missing_text_written_empty_witness:
  "fst (write_transcript demo_env demo_args (Path ''/data/multi.mkv'') Map.empty demo_world) =
     Inr (Path ''/data/multi_transcript.txt'') \<and>
   files (snd (write_transcript demo_env demo_args (Path ''/data/multi.mkv'') Map.empty demo_world))
     (Path ''/data/multi_transcript.txt'') = Some []"
  using missing_text_written_empty [of Map.empty demo_env demo_args demo_world
      "Path ''/data/multi.mkv''" demo_world demo_world "Path ''/data/multi_transcript.txt''"
      "snd (determine_output_path demo_env demo_args (Path ''/data/multi.mkv'') demo_world)"]
  by (simp add: prog_defs lib_defs path_defs comp_defs str_defs demo_defs)

text \<open>
  C8: the writer invoked a second time, on the world the first invocation left, with
  the same result and source, succeeds again with the same path; the file holds the same
  content after both invocations, which is the transcript once, not twice: the second
  invocation replaces the file and changes no file and no directory.
\<close>

theorem write_transcript_idempotent:
  assumes "write_transcript env a src_path result w = (Inr out_txt, w1)"
  shows "\<exists>w2. write_transcript env a src_path result w1 = (Inr out_txt, w2) \<and>
              files w1 out_txt = Some (transcript_data result) \<and>
              files w2 out_txt = Some (transcript_data result) \<and>
              files w2 = files w1 \<and> dirs w2 = dirs w1"
proof -
  from assms obtain wa where d: "determine_output_path env a src_path w = (Inr out_txt, wa)"
    and s: "open_write env out_txt (transcript_data result) wa = (Inr (), w1)"
    by (auto simp: write_transcript_def save_transcript_def comp_defs split: sum.splits prod.splits)
  from d obtain out_dir wb where e: "(case truthy (outdir a) of
        Some x \<Rightarrow> expanduser env (Path x) | None \<Rightarrow> ret (parent src_path)) w = (Inr out_dir, wb)"
    and m: "mkdir env out_dir wb = (Inr (), wa)"
    and o: "out_txt = joinpath out_dir (stem src_path @ ''_transcript.txt'')"
    by (auto simp: determine_output_path_def comp_defs split: sum.splits prod.splits)
  from e have pure: "wb = w \<and> (case truthy (outdir a) of
        Some x \<Rightarrow> expanduser env (Path x) | None \<Rightarrow> ret (parent src_path)) w1 = (Inr out_dir, w1)"
    by (cases "truthy (outdir a)") (auto simp: ret_def dest: expanduser_pure)
  from open_write_stores [OF s] have st: "files w1 = (files wa)(out_txt \<mapsto> transcript_data result)"
    and dd: "dirs w1 = dirs wa" and ok: "out_txt \<notin> dirs wa" "parent out_txt \<in> dirs wa"
      "\<not> denied env out_txt"
    by simp_all
  from m have "out_dir \<in> dirs wa"
    by (simp add: mkdir_done)
  with dd have "out_dir \<in> dirs w1"
    by simp
  then have m2: "mkdir env out_dir w1 = (Inr (), w1\<lparr>trace := trace w1 @ [Mkdir out_dir]\<rparr>)"
    by (rule mkdir_again)
  let ?wm = "w1\<lparr>trace := trace w1 @ [Mkdir out_dir]\<rparr>"
  from ok dd have "out_txt \<notin> dirs ?wm" "parent out_txt \<in> dirs ?wm"
    by simp_all
  with ok(3) have s2: "open_write env out_txt (transcript_data result) ?wm =
      (Inr (), ?wm\<lparr>trace := trace ?wm @ [OpenWrite out_txt],
                    files := (files ?wm)(out_txt \<mapsto> transcript_data result)\<rparr>)"
    by (simp add: open_write_succeeds)
  let ?w2 = "?wm\<lparr>trace := trace ?wm @ [OpenWrite out_txt],
                  files := (files ?wm)(out_txt \<mapsto> transcript_data result)\<rparr>"
  from pure m2 s2 o have "write_transcript env a src_path result w1 = (Inr out_txt, ?w2)"
    by (simp add: write_transcript_def save_transcript_def determine_output_path_def comp_defs)
  moreover from st have "files w1 out_txt = Some (transcript_data result)"
    by simp
  moreover from st have "files ?w2 = files w1"
    by auto
  moreover have "dirs ?w2 = dirs w1"
    by simp
  ultimately show ?thesis
    by (metis (no_types) fun_upd_same st)
qed

theorem write_transcript_idempotent_witness:
  "fst (write_transcript demo_env demo_args (Path ''/data/multi.mkv'') [''text'' \<mapsto> u ''hello'']
          demo_world) = Inr (Path ''/data/multi_transcript.txt'') \<and>
   files (snd (write_transcript demo_env demo_args (Path ''/data/multi.mkv'') [''text'' \<mapsto> u ''hello'']
            (snd (write_transcript demo_env demo_args (Path ''/data/multi.mkv'')
                    [''text'' \<mapsto> u ''hello''] demo_world))))
     (Path ''/data/multi_transcript.txt'') = Some (u ''hello'' @ [10])"
  using write_transcript_idempotent [of demo_env demo_args "Path ''/data/multi.mkv''"
      "[''text'' \<mapsto> u ''hello'']" demo_world "Path ''/data/multi_transcript.txt''"
      "snd (write_transcript demo_env demo_args (Path ''/data/multi.mkv'')
              [''text'' \<mapsto> u ''hello''] demo_world)"]
  by (simp add: prog_defs lib_defs path_defs comp_defs str_defs demo_defs)

section \<open>Track extraction\<close>

lemma mkdtemp_try_cases:
  assumes "mkdtemp_try dir prefix ns w = (r, w')"
  shows "(r = Inl (Raised FileExistsError) \<and> w' = w) \<or>
         (\<exists>n\<in>set ns. r = Inr (dir @ ''/'' @ prefix @ n) \<and>
            Path (dir @ ''/'' @ prefix @ n) \<notin> dirs w \<and>
            files w (Path (dir @ ''/'' @ prefix @ n)) = None \<and>
            w' = w\<lparr>dirs := insert (Path (dir @ ''/'' @ prefix @ n)) (dirs w),
                    trace := trace w @ [Mkdtemp (Path (dir @ ''/'' @ prefix @ n))]\<rparr>)"
  using assms
proof (induction ns)
  case Nil
  then show ?case by simp
next
  case (Cons n ns)
  show ?case
  proof (cases "Path (dir @ ''/'' @ prefix @ n) \<in> dirs w \<or> files w (Path (dir @ ''/'' @ prefix @ n)) \<noteq> None")
    case True
    with Cons.prems have "mkdtemp_try dir prefix ns w = (r, w')"
      by (simp add: Let_def)
    from Cons.IH [OF this] show ?thesis
      by auto
  next
    case False
    with Cons.prems show ?thesis
      by (auto simp: Let_def)
  qed
qed

lemma Path_audio_track: "Path ''audio_track.wav'' = PosixPath [] [''audio_track.wav'']"
  by (simp add: Path_def splitroot_def)

lemma joinpath_audio_track:
  "joinpath d ''audio_track.wav'' = PosixPath (root d) (parts d @ [''audio_track.wav''])"
  by (simp add: joinpath_def Path_audio_track)

lemma extract_track_to_wav_cases:
  assumes "extract_track_to_wav env src k w = (r, w')"
  shows "(which env ''ffmpeg'' = None \<and>
          r = Inl (SystemExit ''FFmpeg not found. Please install FFmpeg and ensure it is in your PATH.'') \<and>
          w' = w\<lparr>trace := trace w @ [Which ''ffmpeg'']\<rparr>) \<or>
         (which env ''ffmpeg'' \<noteq> None \<and> r = Inl (Raised FileExistsError) \<and>
          w' = w\<lparr>trace := trace w @ [Which ''ffmpeg'']\<rparr>) \<or>
         (\<exists>tmpdir cmd. which env ''ffmpeg'' \<noteq> None \<and>
            tmpdir \<notin> dirs w \<and> files w tmpdir = None \<and>
            cmd = ffmpeg_cmd src k (PosixPath (root tmpdir) (parts tmpdir @ [''audio_track.wav''])) \<and>
            ((returncode env cmd \<noteq> 0 \<and>
              r = Inl (Raised (CalledProcessError cmd (returncode env cmd))) \<and>
              w' = w\<lparr>dirs := insert tmpdir (dirs w),
                      trace := trace w @ [Which ''ffmpeg'', Mkdtemp tmpdir, Run cmd (returncode env cmd)]\<rparr>) \<or>
             (returncode env cmd = 0 \<and>
              r = Inr (PosixPath (root tmpdir) (parts tmpdir @ [''audio_track.wav''])) \<and>
              w' = w\<lparr>dirs := insert tmpdir (dirs w),
                      trace := trace w @ [Which ''ffmpeg'', Mkdtemp tmpdir, Run cmd 0],
                      files := (files w)(Path (last cmd) \<mapsto> wav_data env)\<rparr>)))"
proof (cases "which env ''ffmpeg'' = None")
  case True
  with assms show ?thesis
    by (auto simp: extract_track_to_wav_def ensure_ffmpeg_def comp_defs)
next
  case False
  let ?w1 = "w\<lparr>trace := trace w @ [Which ''ffmpeg'']\<rparr>"
  obtain r1 w2 where mk: "mkdtemp_try (gettempdir env) ''whisper_'' (candidate_names env) ?w1 = (r1, w2)"
    by (cases "mkdtemp_try (gettempdir env) ''whisper_'' (candidate_names env) ?w1") auto
  from mkdtemp_try_cases [OF mk] show ?thesis
  proof
    assume "r1 = Inl (Raised FileExistsError) \<and> w2 = ?w1"
    with assms False mk show ?thesis
      by (auto simp: extract_track_to_wav_def ensure_ffmpeg_def mkdtemp_def comp_defs)
  next
    assume "\<exists>n\<in>set (candidate_names env). r1 = Inr (gettempdir env @ ''/'' @ ''whisper_'' @ n) \<and>
            Path (gettempdir env @ ''/'' @ ''whisper_'' @ n) \<notin> dirs ?w1 \<and>
            files ?w1 (Path (gettempdir env @ ''/'' @ ''whisper_'' @ n)) = None \<and>
            w2 = ?w1\<lparr>dirs := insert (Path (gettempdir env @ ''/'' @ ''whisper_'' @ n)) (dirs ?w1),
                    trace := trace ?w1 @ [Mkdtemp (Path (gettempdir env @ ''/'' @ ''whisper_'' @ n))]\<rparr>"
    then obtain d where r1: "r1 = Inr d" and fresh: "Path d \<notin> dirs w" "files w (Path d) = None"
      and w2: "w2 = w\<lparr>dirs := insert (Path d) (dirs w),
                       trace := trace w @ [Which ''ffmpeg'', Mkdtemp (Path d)]\<rparr>"
      by auto
    let ?cmd = "ffmpeg_cmd src k (PosixPath (root (Path d)) (parts (Path d) @ [''audio_track.wav'']))"
    have ne: "?cmd \<noteq> []"
      by (simp add: ffmpeg_cmd_def)
    show ?thesis
    proof (cases "returncode env ?cmd = 0")
      case True
      with assms False mk r1 w2 ne have
        "r = Inr (PosixPath (root (Path d)) (parts (Path d) @ [''audio_track.wav'']))"
        "w' = w\<lparr>dirs := insert (Path d) (dirs w),
                trace := trace w @ [Which ''ffmpeg'', Mkdtemp (Path d), Run ?cmd 0],
                files := (files w)(Path (last ?cmd) \<mapsto> wav_data env)\<rparr>"
        by (auto simp: extract_track_to_wav_def ensure_ffmpeg_def mkdtemp_def subprocess_run_def
            joinpath_audio_track comp_defs Let_def split: list.splits)
      with False fresh True show ?thesis
        by blast
    next
      case nz: False
      with assms False mk r1 w2 have
        "r = Inl (Raised (CalledProcessError ?cmd (returncode env ?cmd)))"
        "w' = w\<lparr>dirs := insert (Path d) (dirs w),
                trace := trace w @ [Which ''ffmpeg'', Mkdtemp (Path d), Run ?cmd (returncode env ?cmd)]\<rparr>"
        by (auto simp: extract_track_to_wav_def ensure_ffmpeg_def mkdtemp_def subprocess_run_def
            joinpath_audio_track comp_defs Let_def)
      with False fresh nz show ?thesis
        by blast
    qed
  qed
qed

lemma digit_char_value:
  assumes "d < 10"
  shows "digit_value (digit_char d) = d \<and> digit_char d \<in> set ''0123456789''"
proof -
  from assms have "d = 0 \<or> d = 1 \<or> d = 2 \<or> d = 3 \<or> d = 4 \<or> d = 5 \<or> d = 6 \<or> d = 7 \<or> d = 8 \<or> d = 9"
    by arith
  then show ?thesis
    by (elim disjE) (simp_all add: digit_value_def digit_char_def)
qed

lemma int_of_digits_snoc:
  "int_of_digits (s @ [c]) = 10 * int_of_digits s + digit_value c"
  by (simp add: int_of_digits_def)

lemma str_nat_value: "int_of_digits (str_nat n) = n"
proof (induction n rule: str_nat.induct)
  case (1 n)
  show ?case
  proof (cases "n < 10")
    case True
    then have "str_nat n = [digit_char n]"
      by (simp add: str_nat.simps)
    with True show ?thesis
      by (simp add: int_of_digits_def digit_char_value)
  next
    case False
    then have "str_nat n = str_nat (n div 10) @ [digit_char (n mod 10)]"
      by (subst str_nat.simps) simp
    moreover from False "1.IH" have "int_of_digits (str_nat (n div 10)) = n div 10"
      by simp
    moreover have "digit_value (digit_char (n mod 10)) = n mod 10"
      by (simp add: digit_char_value)
    ultimately show ?thesis
      by (simp add: int_of_digits_snoc)
  qed
qed

lemma str_nat_digits: "set (str_nat n) \<subseteq> set ''0123456789''"
proof (induction n rule: str_nat.induct)
  case (1 n)
  show ?case
  proof (cases "n < 10")
    case True
    then have "str_nat n = [digit_char n]"
      by (simp add: str_nat.simps)
    with True digit_char_value [of n] show ?thesis
      by simp
  next
    case False
    then have "str_nat n = str_nat (n div 10) @ [digit_char (n mod 10)]"
      by (subst str_nat.simps) simp
    moreover from False "1.IH" have "set (str_nat (n div 10)) \<subseteq> set ''0123456789''"
      by simp
    moreover have "digit_char (n mod 10) \<in> set ''0123456789''"
      using digit_char_value [of "n mod 10"] by simp
    ultimately show ?thesis
      by simp
  qed
qed

text \<open>
  C5: for a track index that is not negative, whenever FFmpeg is installed and a
  temporary directory could be created, the extractor looks FFmpeg up, creates a
  directory that was not there before, and runs exactly one command: \<open>ffmpeg\<close> with
  \<open>-hide_banner -loglevel error\<close> (no informational output), \<open>-y\<close> (overwrite),
  the source as input, \<open>-vn\<close> (no video), \<open>-map 0:a:N\<close> (the N-th audio stream,
  counted among audio streams), \<open>-acodec pcm_s16le -ar 16000 -ac 1\<close> (16-bit PCM,
  16 kHz, mono) and, last, the file \<open>audio_track.wav\<close> directly in the new directory.
  N is the index in decimal digits, and reads back as the index.
\<close>

theorem extract_invocation:
  assumes "0 \<le> track_index" and "which env ''ffmpeg'' \<noteq> None"
    and "extract_track_to_wav env src track_index w = (r, w')"
    and "r \<noteq> Inl (Raised FileExistsError)"
  shows "\<exists>tmpdir out_wav cmd.
           trace w' = trace w @ [Which ''ffmpeg'', Mkdtemp tmpdir, Run cmd (returncode env cmd)] \<and>
           cmd = [''ffmpeg'', ''-hide_banner'', ''-loglevel'', ''error'', ''-y'',
                  ''-i'', str_path src,
                  ''-vn'', ''-map'', ''0:a:'' @ str_int track_index,
                  ''-acodec'', ''pcm_s16le'', ''-ar'', ''16000'', ''-ac'', ''1'',
                  str_path out_wav] \<and>
           set (str_int track_index) \<subseteq> set ''0123456789'' \<and>
           int (int_of_digits (str_int track_index)) = track_index \<and>
           name out_wav = ''audio_track.wav'' \<and> parent out_wav = tmpdir \<and>
           tmpdir \<notin> dirs w \<and> files w tmpdir = None \<and> tmpdir \<in> dirs w'"
proof -
  from assms(1) have idx: "str_int track_index = str_nat (nat track_index)"
    by (simp add: str_int_def)
  then have digits: "set (str_int track_index) \<subseteq> set ''0123456789''"
    using str_nat_digits by simp
  from idx assms(1) have val: "int (int_of_digits (str_int track_index)) = track_index"
    by (simp add: str_nat_value)
  from extract_track_to_wav_cases [OF assms(3)] assms(2,4)
  obtain tmpdir cmd where fresh: "tmpdir \<notin> dirs w" "files w tmpdir = None"
    and cmd: "cmd = ffmpeg_cmd src track_index
                      (PosixPath (root tmpdir) (parts tmpdir @ [''audio_track.wav'']))"
    and tr: "trace w' = trace w @ [Which ''ffmpeg'', Mkdtemp tmpdir, Run cmd (returncode env cmd)]"
    and made: "tmpdir \<in> dirs w'"
    by auto
  let ?out = "PosixPath (root tmpdir) (parts tmpdir @ [''audio_track.wav''])"
  have "name ?out = ''audio_track.wav''" and "parent ?out = tmpdir"
    by (simp_all add: name_joined parent_joined)
  with fresh cmd tr made digits val show ?thesis
    unfolding ffmpeg_cmd_def by blast
qed

theorem extract_invocation_witness:
  "trace (snd (extract_track_to_wav demo_env (Path ''/data/multi.mkv'') 1 demo_world)) =
     [Which ''ffmpeg'', Mkdtemp (Path ''/tmp/whisper_a1''),
      Run [''ffmpeg'', ''-hide_banner'', ''-loglevel'', ''error'', ''-y'',
           ''-i'', ''/data/multi.mkv'', ''-vn'', ''-map'', ''0:a:1'',
           ''-acodec'', ''pcm_s16le'', ''-ar'', ''16000'', ''-ac'', ''1'',
           ''/tmp/whisper_a1/audio_track.wav''] 0] \<and>
   fst (extract_track_to_wav demo_env (Path ''/data/multi.mkv'') 1 demo_world) =
     Inr (Path ''/tmp/whisper_a1/audio_track.wav'')"
  using extract_invocation [of 1 demo_env "Path ''/data/multi.mkv''" demo_world
      "fst (extract_track_to_wav demo_env (Path ''/data/multi.mkv'') 1 demo_world)"
      "snd (extract_track_to_wav demo_env (Path ''/data/multi.mkv'') 1 demo_world)"]
  by (simp add: prog_defs lib_defs path_defs comp_defs str_defs demo_defs Let_def)

section \<open>The run, phase by phase\<close>

lemma get_input_path_effect:
  assumes "get_input_path env a w = (r, w')"
  shows "dirs w' = dirs w \<and> files w' = files w \<and>
         (trace w' = trace w \<or> trace w' = trace w @ [PickFileDialog])"
  using assms
  by (auto simp: get_input_path_def pick_file_dialog_def comp_defs
      split: option.splits sum.splits prod.splits if_splits dest: expanduser_pure)

lemma exists_effect:
  "exists p w = (Inr (p \<in> dirs w \<or> files w p \<noteq> None), w\<lparr>trace := trace w @ [Exists p]\<rparr>)"
  by (simp add: exists_def comp_defs)

lemma import_whisper_effect:
  "import_whisper env w =
     (Inr (whisper_installed env \<and> torch_installed env),
      w\<lparr>trace := trace w @ (if whisper_installed env
                               then [Import ''whisper'', Import ''torch'']
                               else [Import ''whisper''])\<rparr>)"
  by (simp add: import_whisper_def try_import_def comp_defs)

lemma prepare_input_cases:
  assumes "prepare_input env a src w = (r, w')"
  shows "(audio_track a = None \<and> r = Inr (src, None) \<and> w' = w) \<or>
         (\<exists>k. audio_track a = Some k \<and> which env ''ffmpeg'' = None \<and>
            r = Inl (SystemExit ''FFmpeg not found. Please install FFmpeg and ensure it is in your PATH.'') \<and>
            w' = w\<lparr>trace := trace w @ [Which ''ffmpeg'']\<rparr>) \<or>
         (\<exists>k. audio_track a = Some k \<and> which env ''ffmpeg'' \<noteq> None \<and>
            r = Inl (Raised FileExistsError) \<and>
            w' = w\<lparr>trace := trace w @ [Which ''ffmpeg'']\<rparr>) \<or>
         (\<exists>k tmpdir cmd. audio_track a = Some k \<and> which env ''ffmpeg'' \<noteq> None \<and>
            tmpdir \<notin> dirs w \<and> files w tmpdir = None \<and>
            cmd = ffmpeg_cmd src k (PosixPath (root tmpdir) (parts tmpdir @ [''audio_track.wav''])) \<and>
            returncode env cmd \<noteq> 0 \<and>
            r = Inl (SystemExit (''FFmpeg failed to extract audio track '' @ str_int k @ '': '' @
                                 str_error env cmd (returncode env cmd))) \<and>
            w' = w\<lparr>dirs := insert tmpdir (dirs w),
                    trace := trace w @ [Which ''ffmpeg'', Mkdtemp tmpdir, Run cmd (returncode env cmd)]\<rparr>) \<or>
         (\<exists>k tmpdir cmd. audio_track a = Some k \<and> which env ''ffmpeg'' \<noteq> None \<and>
            tmpdir \<notin> dirs w \<and> files w tmpdir = None \<and>
            cmd = ffmpeg_cmd src k (PosixPath (root tmpdir) (parts tmpdir @ [''audio_track.wav''])) \<and>
            returncode env cmd = 0 \<and>
            r = Inr (PosixPath (root tmpdir) (parts tmpdir @ [''audio_track.wav'']), Some tmpdir) \<and>
            w' = w\<lparr>dirs := insert tmpdir (dirs w),
                    trace := trace w @ [Which ''ffmpeg'', Mkdtemp tmpdir, Run cmd 0],
                    files := (files w)(Path (last cmd) \<mapsto> wav_data env)\<rparr>)"
proof (cases "audio_track a")
  case None
  with assms show ?thesis
    by (auto simp: prepare_input_def ret_def)
next
  case (Some k)
  obtain r1 w1 where ex: "extract_track_to_wav env src k w = (r1, w1)"
    by (cases "extract_track_to_wav env src k w") auto
  from extract_track_to_wav_cases [OF ex] assms Some ex show ?thesis
    by (elim disjE exE conjE) (auto simp: prepare_input_def sys_exit_def parent_joined)
qed

lemma whisper_load_model_effect:
  assumes "whisper_load_model env nm dev w = (r, w')"
  shows "w' = w\<lparr>trace := trace w @ [LoadModel nm dev]\<rparr> \<and>
         (r = Inl (Raised EngineError) \<or> (\<exists>m. r = Inr m))"
  using assms by (auto simp: whisper_load_model_def comp_defs split: option.splits)

lemma model_transcribe_effect:
  assumes "model_transcribe m audio lang w = (r, w')"
  shows "w' = w\<lparr>trace := trace w @ [Transcribe audio lang]\<rparr> \<and>
         (r = Inl (Raised EngineError) \<or> (\<exists>res. r = Inr res))"
  using assms by (auto simp: model_transcribe_def comp_defs split: option.splits)

lemma mkdir_effect:
  assumes "mkdir env p w = (r, w')"
  shows "trace w' = trace w @ [Mkdir p] \<and> files w' = files w \<and> dirs w \<subseteq> dirs w' \<and>
         (r = Inl (Raised OSError) \<or> r = Inr ())"
  using assms by (auto simp: mkdir_def comp_defs split: if_splits)

lemma open_write_effect:
  assumes "open_write env p data w = (r, w')"
  shows "trace w' = trace w @ [OpenWrite p] \<and> dirs w' = dirs w \<and>
         (r = Inl (Raised OSError) \<or> r = Inr ())"
  using assms by (auto simp: open_write_def comp_defs split: if_splits)

lemma write_transcript_effect:
  assumes "write_transcript env a src result w = (r, w')"
  shows "dirs w \<subseteq> dirs w' \<and>
         (\<exists>evs. trace w' = trace w @ evs \<and>
            (\<forall>e\<in>set evs. (\<exists>d. e = Mkdir d) \<or> (\<exists>p. e = OpenWrite p))) \<and>
         (r = Inl (Raised OSError) \<or> r = Inl (Raised RuntimeError) \<or> (\<exists>p. r = Inr p))"
proof -
  let ?dir = "case truthy (outdir a) of Some d \<Rightarrow> expanduser env (Path d)
                                     | None \<Rightarrow> ret (parent src)"
  obtain r0 w0 where e: "?dir w = (r0, w0)"
    by (cases "?dir w") auto
  then have w0: "w0 = w" and r0: "r0 = Inl (Raised RuntimeError) \<or> (\<exists>d. r0 = Inr d)"
    by (auto simp: expanduser_def comp_defs Let_def split: option.splits list.splits if_splits)
  show ?thesis
  proof (cases r0)
    case (Inl e0)
    with assms e w0 r0 show ?thesis
      by (auto simp: write_transcript_def determine_output_path_def and_then_def)
  next
    case (Inr out_dir)
    obtain r1 w1 where m: "mkdir env out_dir w = (r1, w1)"
      by (cases "mkdir env out_dir w") auto
    note me = mkdir_effect [OF m]
    show ?thesis
    proof (cases r1)
      case (Inl e1)
      with assms e w0 Inr m me show ?thesis
        by (auto simp: write_transcript_def determine_output_path_def and_then_def)
    next
      case r1: (Inr u1)
      let ?out = "joinpath out_dir (stem src @ ''_transcript.txt'')"
      obtain r2 w2 where o: "open_write env ?out (transcript_data result) w1 = (r2, w2)"
        by (cases "open_write env ?out (transcript_data result) w1") auto
      note oe = open_write_effect [OF o]
      from assms e w0 Inr m r1 o have "w' = w2" and "r = (case r2 of Inl x \<Rightarrow> Inl x | Inr _ \<Rightarrow> Inr ?out)"
        by (auto simp: write_transcript_def determine_output_path_def save_transcript_def
            and_then_def ret_def split: sum.splits)
      with me oe show ?thesis
        by auto
    qed
  qed
qed

lemma print_effect: "print s w = (Inr (), w\<lparr>trace := trace w @ [Print s]\<rparr>)"
  by (simp add: print_def log_def)

lemma cleanup_temp_effect:
  assumes "cleanup_temp env tmp w = (r, w')"
  shows "r = Inr () \<and>
         (\<exists>evs. trace w' = trace w @ evs \<and>
            (\<forall>e\<in>set evs. (\<exists>p. e = Exists p) \<or> (\<exists>p. e = Rmtree p)))"
  using assms
  by (auto simp: cleanup_temp_def exists_def rmtree_def comp_defs
      split: option.splits if_splits)

lemma after_prepare_effect:
  assumes "after_prepare env a src media tmp w = (r, w')"
  shows "dirs w \<subseteq> dirs w' \<or> (\<exists>p. Rmtree p \<in> set (trace w'))"
    and "\<exists>evs. trace w' = trace w @ evs \<and>
           (\<forall>e\<in>set evs. \<not> (\<exists>c rc. e = Run c rc) \<and> \<not> (\<exists>p. e = Mkdtemp p) \<and>
                          \<not> (\<exists>s. e = Which s) \<and> \<not> (\<exists>s. e = Import s))"
    and "r \<noteq> Inl (SystemExit msg)"
proof -
  obtain r1 w1 where l: "whisper_load_model env (model a) (choose_device env a) w = (r1, w1)"
    by (cases "whisper_load_model env (model a) (choose_device env a) w") auto
  note le = whisper_load_model_effect [OF l]
  show "dirs w \<subseteq> dirs w' \<or> (\<exists>p. Rmtree p \<in> set (trace w'))"
    and "\<exists>evs. trace w' = trace w @ evs \<and>
           (\<forall>e\<in>set evs. \<not> (\<exists>c rc. e = Run c rc) \<and> \<not> (\<exists>p. e = Mkdtemp p) \<and>
                          \<not> (\<exists>s. e = Which s) \<and> \<not> (\<exists>s. e = Import s))"
    and "r \<noteq> Inl (SystemExit msg)"
  proof (atomize (full), cases r1)
    case (Inl e1)
    with assms l le show "(dirs w \<subseteq> dirs w' \<or> (\<exists>p. Rmtree p \<in> set (trace w'))) \<and>
      (\<exists>evs. trace w' = trace w @ evs \<and>
           (\<forall>e\<in>set evs. \<not> (\<exists>c rc. e = Run c rc) \<and> \<not> (\<exists>p. e = Mkdtemp p) \<and>
                          \<not> (\<exists>s. e = Which s) \<and> \<not> (\<exists>s. e = Import s))) \<and>
      r \<noteq> Inl (SystemExit msg)"
      by (auto simp: and_then_def)
  next
    case (Inr m)
    obtain r2 w2 where t: "model_transcribe m (str_path media) (language a) w1 = (r2, w2)"
      by (cases "model_transcribe m (str_path media) (language a) w1") auto
    note te = model_transcribe_effect [OF t]
    show "(dirs w \<subseteq> dirs w' \<or> (\<exists>p. Rmtree p \<in> set (trace w'))) \<and>
      (\<exists>evs. trace w' = trace w @ evs \<and>
           (\<forall>e\<in>set evs. \<not> (\<exists>c rc. e = Run c rc) \<and> \<not> (\<exists>p. e = Mkdtemp p) \<and>
                          \<not> (\<exists>s. e = Which s) \<and> \<not> (\<exists>s. e = Import s))) \<and>
      r \<noteq> Inl (SystemExit msg)"
    proof (cases r2)
      case (Inl e2)
      with assms l le Inr t te show ?thesis
        by (auto simp: and_then_def)
    next
      case res: (Inr result)
      obtain r3 w3 where wt: "write_transcript env a src result w2 = (r3, w3)"
        by (cases "write_transcript env a src result w2") auto
      note we = write_transcript_effect [OF wt]
      from we obtain evs3 where evs3: "trace w3 = trace w2 @ evs3"
        "\<forall>e\<in>set evs3. (\<exists>d. e = Mkdir d) \<or> (\<exists>p. e = OpenWrite p)"
        by blast
      show ?thesis
      proof (cases r3)
        case (Inl e3)
        with assms l le Inr t te res wt we evs3 show ?thesis
          by (auto simp: and_then_def)
      next
        case out: (Inr out_txt)
        let ?w4 = "w3\<lparr>trace := trace w3 @ [Print (''Transcript saved to: '' @ str_path out_txt)]\<rparr>"
        from assms l Inr t res wt out have c: "cleanup_temp env tmp ?w4 = (r, w')"
          by (simp add: and_then_def print_effect)
        from cleanup_temp_effect [OF c] obtain evs5 where r: "r = Inr ()"
          and evs5: "trace w' = trace ?w4 @ evs5"
            "\<forall>e\<in>set evs5. (\<exists>p. e = Exists p) \<or> (\<exists>p. e = Rmtree p)"
          by blast
        have tr: "trace w' = trace w @ ([LoadModel (model a) (choose_device env a),
                   Transcribe (str_path media) (language a)] @ evs3 @
                   [Print (''Transcript saved to: '' @ str_path out_txt)] @ evs5)"
          using le te evs3 evs5 by simp
        have d: "dirs w \<subseteq> dirs w' \<or> (\<exists>p. Rmtree p \<in> set (trace w'))"
        proof (cases "\<exists>p. Rmtree p \<in> set evs5")
          case True
          with evs5 show ?thesis by auto
        next
          case False
          with c evs5 have "dirs w' = dirs ?w4"
            by (auto simp: cleanup_temp_def exists_def rmtree_def comp_defs
                split: option.splits if_splits)
          with le te we show ?thesis
            by auto
        qed
        from evs3(2) evs5(2) have "\<forall>e\<in>set ([LoadModel (model a) (choose_device env a),
                   Transcribe (str_path media) (language a)] @ evs3 @
                   [Print (''Transcript saved to: '' @ str_path out_txt)] @ evs5).
             \<not> (\<exists>c rc. e = Run c rc) \<and> \<not> (\<exists>p. e = Mkdtemp p) \<and>
             \<not> (\<exists>s. e = Which s) \<and> \<not> (\<exists>s. e = Import s)"
          by auto
        with tr d r show ?thesis
          by blast
      qed
    qed
  qed
qed

lemma get_input_path_world:
  assumes "get_input_path env a w = (r, w')"
  shows "(w' = w \<and> truthy (input a) \<noteq> None \<and> (r = Inl (Raised RuntimeError) \<or> (\<exists>p. r = Inr (Some p)))) \<or>
         (w' = w\<lparr>trace := trace w @ [PickFileDialog]\<rparr> \<and> truthy (input a) = None \<and> (\<exists>x. r = Inr x))"
  using assms
  by (auto simp: get_input_path_def pick_file_dialog_def expanduser_def comp_defs Let_def
      split: option.splits list.splits if_splits)

lemma program_cases:
  assumes "program env a w = (r, w')"
  obtains
    (no_home) "r = Inl (Raised RuntimeError)" and "w' = w\<lparr>trace := []\<rparr>"
  | (no_input) front where
      "r = Inl (SystemExit ''No valid input file selected/provided.'')"
      and "w' = w\<lparr>trace := front\<rparr>"
      and "\<forall>e\<in>set front. e = PickFileDialog \<or> (\<exists>p. e = Exists p)"
  | (no_engine) front where
      "\<not> (whisper_installed env \<and> torch_installed env)"
      and "r = Inl (SystemExit (''The 'whisper' package is not installed. '' @
                               ''Install via: pip install -U openai-whisper''))"
      and "w' = w\<lparr>trace := front\<rparr>"
      and "\<forall>e\<in>set front. e = PickFileDialog \<or> (\<exists>p. e = Exists p) \<or> (\<exists>s. e = Import s)"
  | (engine) src front rp w1 where
      "whisper_installed env \<and> torch_installed env"
      and "src \<in> dirs w \<or> files w src \<noteq> None"
      and "\<forall>e\<in>set front. e = PickFileDialog \<or> (\<exists>p. e = Exists p) \<or> (\<exists>s. e = Import s)"
      and "prepare_input env a src (w\<lparr>trace := front\<rparr>) = (rp, w1)"
      and "case rp of Inl e \<Rightarrow> r = Inl e \<and> w' = w1
                    | Inr (media, tmp) \<Rightarrow> after_prepare env a src media tmp w1 = (r, w')"
proof -
  let ?w0 = "w\<lparr>trace := []\<rparr>"
  obtain r1 w1 where g: "get_input_path env a ?w0 = (r1, w1)"
    by (cases "get_input_path env a ?w0") auto
  from get_input_path_world [OF g] obtain pick where w1: "w1 = w\<lparr>trace := pick\<rparr>"
    and pick: "pick = [] \<or> pick = [PickFileDialog]"
    and r1: "r1 = Inl (Raised RuntimeError) \<and> pick = [] \<or> (\<exists>x. r1 = Inr x)"
    by auto
  show thesis
  proof (cases r1)
    case (Inl e)
    with r1 g w1 assms have "r = Inl (Raised RuntimeError)" "w' = w\<lparr>trace := []\<rparr>"
      by (auto simp: program_def main_def and_then_def)
    then show thesis by (rule no_home)
  next
    case (Inr src_opt)
    show thesis
    proof (cases src_opt)
      case None
      with Inr g w1 assms have "r = Inl (SystemExit ''No valid input file selected/provided.'')"
        "w' = w\<lparr>trace := pick\<rparr>"
        by (auto simp: program_def main_def and_then_def ret_def sys_exit_def)
      moreover from pick have "\<forall>e\<in>set pick. e = PickFileDialog \<or> (\<exists>p. e = Exists p)"
        by auto
      ultimately show thesis by (rule no_input)
    next
      case (Some src)
      let ?w2 = "w\<lparr>trace := pick @ [Exists src]\<rparr>"
      show thesis
      proof (cases "src \<in> dirs w \<or> files w src \<noteq> None")
        case False
        with Inr Some g w1 assms have
          "r = Inl (SystemExit ''No valid input file selected/provided.'')"
          "w' = w\<lparr>trace := pick @ [Exists src]\<rparr>"
          by (auto simp: program_def main_def and_then_def sys_exit_def exists_effect)
        moreover from pick have
          "\<forall>e\<in>set (pick @ [Exists src]). e = PickFileDialog \<or> (\<exists>p. e = Exists p)"
          by auto
        ultimately show thesis by (rule no_input)
      next
        case found: True
        let ?imports = "if whisper_installed env then [Import ''whisper'', Import ''torch'']
                        else [Import ''whisper'']"
        let ?front = "pick @ [Exists src] @ ?imports"
        from pick have quiet:
          "\<forall>e\<in>set ?front. e = PickFileDialog \<or> (\<exists>p. e = Exists p) \<or> (\<exists>s. e = Import s)"
          by auto
        show thesis
        proof (cases "whisper_installed env \<and> torch_installed env")
          case False
          with found Inr Some g w1 assms have
            rr: "r = Inl (SystemExit (''The 'whisper' package is not installed. '' @
                                  ''Install via: pip install -U openai-whisper''))"
            and ww: "w' = w\<lparr>trace := ?front\<rparr>"
            by (auto simp: program_def main_def and_then_def sys_exit_def exists_effect
                import_whisper_effect)
          from False rr ww quiet show thesis by (rule no_engine)
        next
          case True
          obtain rp wp where p: "prepare_input env a src (w\<lparr>trace := ?front\<rparr>) = (rp, wp)"
            by (cases "prepare_input env a src (w\<lparr>trace := ?front\<rparr>)") auto
          from True found Inr Some g w1 assms p have
            "case rp of Inl e \<Rightarrow> r = Inl e \<and> w' = wp
                      | Inr (media, tmp) \<Rightarrow> after_prepare env a src media tmp wp = (r, w')"
            by (auto simp: program_def main_def and_then_def exists_effect
                import_whisper_effect split: sum.splits prod.splits)
          with True found quiet p show thesis by (rule engine)
        qed
      qed
    qed
  qed
qed

end
